theory Spec2Isabelle
  imports Complex_Main "HOL-Library.Multiset" "HOL-Library.Char_ord" "HOL-Library.List_Lexorder"
begin

section \<open>Strings\<close>

text \<open>
  A Python \<open>str\<close> is modelled as a \<open>string\<close> (a list of characters); one list element
  stands for one character of the Python string, so \<open>length\<close> is Python's \<open>len\<close>.
  Strings are compared as Python compares them: character by character, by character code
  (the lexicographic order on lists over the order on characters).
\<close>

text \<open>\<open>a[p:q]\<close> for indices \<open>0 \<le> p\<close> and \<open>0 \<le> q\<close>.\<close>

definition slice :: "'a list \<Rightarrow> nat \<Rightarrow> nat \<Rightarrow> 'a list" where
  "slice a p q = drop p (take q a)"

section \<open>Pattern delta (find\_near\_cognates\_fuzzy.py)\<close>

text \<open>
  \<^verbatim>\<open>
  def longest_common_prefix(a, b):
      n = min(len(a), len(b))
      i = 0
      while i < n and a[i] == b[i]:
          i += 1
      return i
  \<close>
  The loop is the recursive function \<open>lcp_loop\<close> on the counter \<open>i\<close>.
\<close>

function lcp_loop :: "string \<Rightarrow> string \<Rightarrow> nat \<Rightarrow> nat \<Rightarrow> nat" where
  "lcp_loop a b n i = (if i < n \<and> a ! i = b ! i then lcp_loop a b n (Suc i) else i)"
  by pat_completeness auto
termination
  by (relation "measure (\<lambda>(a, b, n, i). n - i)") auto

declare lcp_loop.simps [simp del]

definition longest_common_prefix :: "string \<Rightarrow> string \<Rightarrow> nat" where
  "longest_common_prefix a b = lcp_loop a b (min (length a) (length b)) 0"

text \<open>
  \<^verbatim>\<open>
  def longest_common_suffix(a, b):
      n = min(len(a), len(b))
      i = 0
      while i < n and a[-1 - i] == b[-1 - i]:
          i += 1
      return i
  \<close>
  For \<open>i < len(a)\<close> the negative index \<open>a[-1 - i]\<close> is \<open>a[len(a) - 1 - i]\<close>.
\<close>

function lcs_loop :: "string \<Rightarrow> string \<Rightarrow> nat \<Rightarrow> nat \<Rightarrow> nat" where
  "lcs_loop a b n i =
     (if i < n \<and> a ! (length a - 1 - i) = b ! (length b - 1 - i)
      then lcs_loop a b n (Suc i) else i)"
  by pat_completeness auto
termination
  by (relation "measure (\<lambda>(a, b, n, i). n - i)") auto

declare lcs_loop.simps [simp del]

definition longest_common_suffix :: "string \<Rightarrow> string \<Rightarrow> nat" where
  "longest_common_suffix a b = lcs_loop a b (min (length a) (length b)) 0"

text \<open>
  The body of \<open>detect_delta\<close> up to the two middle fragments:
  \<^verbatim>\<open>
      prefix_len = longest_common_prefix(a, b)
      suffix_len = longest_common_suffix(a, b)
      max_common = min(len(a), len(b))
      if prefix_len + suffix_len > max_common:
          suffix_len = max(0, max_common - prefix_len)
      a_mid = a[prefix_len : len(a) - suffix_len if suffix_len > 0 else len(a)]
      b_mid = b[prefix_len : len(b) - suffix_len if suffix_len > 0 else len(b)]
  \<close>
  \<open>clamped_suffix_len\<close> is \<open>suffix_len\<close> after the overlap guard; the subtraction on
  \<open>nat\<close> stops at 0, which is the \<open>max(0, ...)\<close> of the source.
\<close>

definition clamped_suffix_len :: "string \<Rightarrow> string \<Rightarrow> nat" where
  "clamped_suffix_len a b =
     (let prefix_len = longest_common_prefix a b;
          suffix_len = longest_common_suffix a b;
          max_common = min (length a) (length b)
      in if prefix_len + suffix_len > max_common then max_common - prefix_len
         else suffix_len)"

definition mid :: "string \<Rightarrow> nat \<Rightarrow> nat \<Rightarrow> string" where
  "mid a prefix_len suffix_len =
     slice a prefix_len (if suffix_len > 0 then length a - suffix_len else length a)"

definition a_mid :: "string \<Rightarrow> string \<Rightarrow> string" where
  "a_mid a b = mid a (longest_common_prefix a b) (clamped_suffix_len a b)"

definition b_mid :: "string \<Rightarrow> string \<Rightarrow> string" where
  "b_mid a b = mid b (longest_common_prefix a b) (clamped_suffix_len a b)"

text \<open>
  \<^verbatim>\<open>
      if not a or not b:
          return ""
      ...
      if a_mid or b_mid:
          return f"delta: '{a_mid}' vs '{b_mid}'"
      if a != b:
          return f"delta_whole: '{a}' vs '{b}'"
      return ""
  \<close>
\<close>

definition quoted :: "string \<Rightarrow> string" where
  "quoted s = [CHR 0x27] @ s @ [CHR 0x27]"

definition detect_delta :: "string \<Rightarrow> string \<Rightarrow> string" where
  "detect_delta a b =
     (if a = [] \<or> b = [] then []
      else if a_mid a b \<noteq> [] \<or> b_mid a b \<noteq> []
        then ''delta: '' @ quoted (a_mid a b) @ '' vs '' @ quoted (b_mid a b)
      else if a \<noteq> b
        then ''delta_whole: '' @ quoted a @ '' vs '' @ quoted b
      else [])"

section \<open>Fuzzy-match detector (find\_near\_cognates\_fuzzy.py)\<close>

subsection \<open>Library functions used by the detector\<close>

text \<open>
  \<open>str.strip()\<close> removes leading and trailing whitespace. The whitespace characters with
  a code below 256 are the codes 9 to 13, 28 to 32, 133 and 160.
\<close>

definition is_space :: "char \<Rightarrow> bool" where
  "is_space c = (of_char c \<in> set [9, 10, 11, 12, 13, 28, 29, 30, 31, 32, 133, 160 :: nat])"

definition strip :: "string \<Rightarrow> string" where
  "strip s = rev (dropWhile is_space (rev (dropWhile is_space s)))"

text \<open>
  \<open>int(s)\<close> on a string: surrounding whitespace is ignored, then an optional sign, then
  decimal digits, where single underscores may stand between digits. Anything else raises
  \<open>ValueError\<close>, which is \<open>None\<close> here.
\<close>

definition is_digit :: "char \<Rightarrow> bool" where
  "is_digit c = (48 \<le> (of_char c :: nat) \<and> (of_char c :: nat) \<le> 57)"

fun parse_digits :: "nat \<Rightarrow> bool \<Rightarrow> string \<Rightarrow> nat option" where
  "parse_digits acc prev_digit [] = (if prev_digit then Some acc else None)"
| "parse_digits acc prev_digit (c # cs) =
     (if is_digit c then parse_digits (10 * acc + (of_char c - 48)) True cs
      else if c = CHR ''_'' \<and> prev_digit then parse_digits acc False cs
      else None)"

definition py_int :: "string \<Rightarrow> int option" where
  "py_int s =
     (case strip s of
        [] \<Rightarrow> None
      | c # cs \<Rightarrow>
          if c = CHR ''-'' then map_option (\<lambda>n. - int n) (parse_digits 0 False cs)
          else if c = CHR ''+'' then map_option int (parse_digits 0 False cs)
          else map_option int (parse_digits 0 False (c # cs)))"

text \<open>
  \<open>itertools.combinations(entries, 2)\<close>: the pairs \<open>(entries[i], entries[j])\<close> with
  \<open>i < j\<close>, in lexicographic order of the indices.
\<close>

fun combinations2 :: "'a list \<Rightarrow> ('a \<times> 'a) list" where
  "combinations2 [] = []"
| "combinations2 (x # xs) = map (Pair x) xs @ combinations2 xs"

text \<open>
  The similarity \<open>sim\<close> is the float \<open>2.0 * matches / length\<close>, the correctly rounded
  quotient of two integers; it is modelled as that quotient, a rational number, and the float
  \<open>0.7\<close> as \<open>7/10\<close>. (The comparisons of the source give the same answers on the floats and
  on the exact quotients unless the two words together are longer than \<open>10^14\<close> characters.)

  \<open>f"{sim:.3f}"\<close> writes the score with three decimals. \<open>format_3f\<close> is the number written:
  the nearest multiple of \<open>1/1000\<close>, a tie going to the even one.
\<close>

definition format_3f :: "rat \<Rightarrow> rat" where
  "format_3f q =
     (let x = q * 1000; n = \<lfloor>x\<rfloor>; f = x - of_int n
      in of_int (if f < 1 / 2 then n else if 1 / 2 < f then n + 1
                 else if even n then n else n + 1) / 1000)"

subsection \<open>Loading the lexicon\<close>

text \<open>
  A row of \<open>csv.DictReader\<close>: \<open>row.get(key)\<close> is \<open>None\<close> for a column the row lacks.
\<close>

record csv_row =
  csv_language :: "string option"
  csv_rank :: "string option"
  csv_word :: "string option"

text \<open>\<open>x or ""\<close> for \<open>x\<close> a string or \<open>None\<close>.\<close>

definition or_empty :: "string option \<Rightarrow> string" where
  "or_empty x = (case x of None \<Rightarrow> [] | Some s \<Rightarrow> s)"

text \<open>
  \<^verbatim>\<open>
  by_lang_rank = {}; languages = set(); max_rank = 0
  for row in reader:
      lang = (row.get("language") or "").strip()
      if not lang:
          continue
      try:
          rank = int((row.get("rank") or "").strip())
      except (TypeError, ValueError):
          continue
      word = (row.get("word") or "").strip()
      if not word:
          continue
      by_lang_rank[(lang, rank)] = word
      languages.add(lang)
      if rank > max_rank:
          max_rank = rank
  return by_lang_rank, languages, max_rank
  \<close>
  The state of the loop is the triple of the three variables.
\<close>

type_synonym lexicon = "(string \<times> int) \<rightharpoonup> string"

definition load_row :: "csv_row \<Rightarrow> lexicon \<times> string set \<times> int \<Rightarrow> lexicon \<times> string set \<times> int" where
  "load_row row st =
     (case st of (by_lang_rank, languages, max_rank) \<Rightarrow>
        let lang = strip (or_empty (csv_language row)) in
        if lang = [] then st
        else case py_int (strip (or_empty (csv_rank row))) of
               None \<Rightarrow> st
             | Some rank \<Rightarrow>
                 let word = strip (or_empty (csv_word row)) in
                 if word = [] then st
                 else (by_lang_rank((lang, rank) \<mapsto> word),
                       insert lang languages,
                       if rank > max_rank then rank else max_rank))"

definition load_raw_data :: "csv_row list \<Rightarrow> lexicon \<times> string set \<times> int" where
  "load_raw_data rows = fold load_row rows (Map.empty, {}, 0)"

text \<open>
  To state what the loop returns: \<open>row_entry row\<close> is the entry \<open>(lang, rank, word)\<close>
  that a row adds to the lexicon, \<open>None\<close> for a row that one of the three \<open>continue\<close>
  statements skips, and \<open>lexicon_entries\<close> are the entries of a file in its order.
\<close>

definition row_entry :: "csv_row \<Rightarrow> (string \<times> int \<times> string) option" where
  "row_entry row =
     (let lang = strip (or_empty (csv_language row)) in
      if lang = [] then None
      else case py_int (strip (or_empty (csv_rank row))) of
             None \<Rightarrow> None
           | Some rank \<Rightarrow>
               let word = strip (or_empty (csv_word row)) in
               if word = [] then None else Some (lang, rank, word))"

definition lexicon_entries :: "csv_row list \<Rightarrow> (string \<times> int \<times> string) list" where
  "lexicon_entries rows = List.map_filter row_entry rows"

text \<open>
  \<open>maxRank\<close> in the words of the specification: the minimum, over the languages, of the
  largest rank that the language uses.
\<close>

definition language_max_rank :: "(string \<times> int \<times> string) list \<Rightarrow> string \<Rightarrow> int" where
  "language_max_rank entries lang =
     Max (set (map (\<lambda>e. fst (snd e)) (filter (\<lambda>e. fst e = lang) entries)))"

definition min_of_language_max_ranks :: "(string \<times> int \<times> string) list \<Rightarrow> int" where
  "min_of_language_max_ranks entries =
     Min (set (map (\<lambda>e. language_max_rank entries (fst e)) entries))"

subsection \<open>The detector\<close>

text \<open>
  A row of the detector's output, \<open>[rank, english_meaning, lang_a, word_a, lang_b, word_b,
  f"{sim:.3f}", pattern]\<close>, under the column names of the file it is written to. The score
  is kept as the number that the three-decimal text denotes.
\<close>

record near_row =
  n_Rank :: int
  n_English_Meaning :: string
  n_Language_A :: string
  n_Word_A :: string
  n_Language_B :: string
  n_Word_B :: string
  n_Similarity_Score :: rat
  n_Pattern_Detected :: string

text \<open>\<open>by_lang_rank.get((lang_code, rank), "")\<close>\<close>

definition get_word :: "lexicon \<Rightarrow> string \<Rightarrow> int \<Rightarrow> string" where
  "get_word by_lang_rank code rank =
     (case by_lang_rank (code, rank) of None \<Rightarrow> [] | Some w \<Rightarrow> w)"

text \<open>
  The entries collected at one rank, before the length filter:
  \<^verbatim>\<open>
  entries = [("en", english_meaning)]
  for lang_code in sorted(languages):
      word = by_lang_rank.get((lang_code, rank), "").strip()
      if not word:
          continue
      entries.append((lang_code, word))
  \<close>
\<close>

definition rank_entries :: "string \<Rightarrow> lexicon \<Rightarrow> string set \<Rightarrow> int \<Rightarrow> (string \<times> string) list" where
  "rank_entries english_meaning by_lang_rank languages rank =
     (''en'', english_meaning) #
     concat (map (\<lambda>lang_code.
                    let word = strip (get_word by_lang_rank lang_code rank)
                    in if word = [] then [] else [(lang_code, word)])
                 (sorted_list_of_set languages))"

text \<open>
  The body of the loop over the pairs; \<open>ratio\<close> stands for
  \<open>difflib.SequenceMatcher(None, word_a, word_b).ratio()\<close>.
  \<^verbatim>\<open>
  if word_a == word_b:
      continue
  if len(word_a) < 4 or len(word_b) < 4:
      continue
  sim = difflib.SequenceMatcher(None, word_a, word_b).ratio()
  if sim <= threshold or sim >= 1.0:
      continue
  pattern = detect_delta(word_a, word_b)
  rows.append([rank, english_meaning, lang_a, word_a, lang_b, word_b, f"{sim:.3f}", pattern])
  \<close>
\<close>

definition pair_rows ::
  "(string \<Rightarrow> string \<Rightarrow> rat) \<Rightarrow> rat \<Rightarrow> int \<Rightarrow> string \<Rightarrow>
   (string \<times> string) \<times> (string \<times> string) \<Rightarrow> near_row list" where
  "pair_rows ratio threshold rank english_meaning pr =
     (case pr of ((lang_a, word_a), (lang_b, word_b)) \<Rightarrow>
        if word_a = word_b then []
        else if length word_a < 4 \<or> length word_b < 4 then []
        else let sim = ratio word_a word_b in
          if sim \<le> threshold \<or> sim \<ge> 1 then []
          else [\<lparr>n_Rank = rank, n_English_Meaning = english_meaning,
                  n_Language_A = lang_a, n_Word_A = word_a,
                  n_Language_B = lang_b, n_Word_B = word_b,
                  n_Similarity_Score = format_3f sim,
                  n_Pattern_Detected = detect_delta word_a word_b\<rparr>])"

text \<open>
  The body of the loop over the ranks:
  \<^verbatim>\<open>
  english_meaning = english_by_rank[rank - 1].strip()
  if len(english_meaning) < 1:
      continue
  entries = ...
  entries = [(lc, w) for (lc, w) in entries if len(w) >= 4]
  if len(entries) < 2:
      continue
  for (lang_a, word_a), (lang_b, word_b) in itertools.combinations(entries, 2):
      ...
  \<close>
  The loop runs over \<open>1 \<le> rank \<le> len(english_by_rank)\<close> only, so the index
  \<open>rank - 1\<close> is in range.
\<close>

definition near_rank_rows ::
  "(string \<Rightarrow> string \<Rightarrow> rat) \<Rightarrow> rat \<Rightarrow> string list \<Rightarrow> lexicon \<Rightarrow> string set \<Rightarrow>
   int \<Rightarrow> near_row list" where
  "near_rank_rows ratio threshold english_by_rank by_lang_rank languages rank =
     (let english_meaning = strip (english_by_rank ! nat (rank - 1)) in
      if length english_meaning < 1 then []
      else
        let entries = filter (\<lambda>(lc, w). length w \<ge> 4)
                        (rank_entries english_meaning by_lang_rank languages rank)
        in if length entries < 2 then []
           else concat (map (pair_rows ratio threshold rank english_meaning)
                            (combinations2 entries)))"

text \<open>
  \<^verbatim>\<open>
  max_rank = min(len(english_by_rank), max_rank_data)
  for rank in range(1, max_rank + 1):
  \<close>
\<close>

definition near_ranks :: "string list \<Rightarrow> int \<Rightarrow> int list" where
  "near_ranks english_by_rank max_rank_data =
     [1 .. min (int (length english_by_rank)) max_rank_data]"

definition find_near_cognates ::
  "(string \<Rightarrow> string \<Rightarrow> rat) \<Rightarrow> string list \<Rightarrow> lexicon \<Rightarrow> string set \<Rightarrow> int \<Rightarrow> rat \<Rightarrow>
   near_row list" where
  "find_near_cognates ratio english_by_rank by_lang_rank languages max_rank_data threshold =
     concat (map (near_rank_rows ratio threshold english_by_rank by_lang_rank languages)
                 (near_ranks english_by_rank max_rank_data))"

section \<open>The similarity ratio of the standard library\<close>

text \<open>
  \<open>difflib.SequenceMatcher(None, a, b).ratio()\<close>, as the library computes it: no junk
  function, and the automatic junk heuristic on. \<open>find_near_cognates\<close> takes the ratio as a
  parameter, and what is proved about it holds for every ratio function; this model is what
  the examples run on.

  The index \<open>b2j\<close> of the positions of every element of \<open>b\<close> is a dictionary (an
  association list); the elements that are "popular" are deleted from it:
  \<^verbatim>\<open>
  self.b2j = b2j = {}
  for i, elt in enumerate(b):
      indices = b2j.setdefault(elt, [])
      indices.append(i)
  ...
  n = len(b)
  if self.autojunk and n >= 200:
      ntest = n // 100 + 1
      for elt, idxs in b2j.items():
          if len(idxs) > ntest:
              popular.add(elt)
      for elt in popular:
          del b2j[elt]
  \<close>
\<close>

fun dict_append :: "('k \<times> 'v list) list \<Rightarrow> 'k \<Rightarrow> 'v \<Rightarrow> ('k \<times> 'v list) list" where
  "dict_append [] k v = [(k, [v])]"
| "dict_append ((k', vs) # rest) k v =
     (if k' = k then (k', vs @ [v]) # rest else (k', vs) # dict_append rest k v)"

definition chain_b :: "string \<Rightarrow> (char \<times> nat list) list" where
  "chain_b b =
     (let b2j = fold (\<lambda>(i, elt) b2j. dict_append b2j elt i) (enumerate 0 b) [];
          n = length b
      in if n \<ge> 200
         then filter (\<lambda>(elt, idxs). \<not> length idxs > n div 100 + 1) b2j
         else b2j)"

text \<open>\<open>b2j.get(elt, [])\<close>\<close>

definition b2j_get :: "(char \<times> nat list) list \<Rightarrow> char \<Rightarrow> nat list" where
  "b2j_get b2j elt = (case map_of b2j elt of None \<Rightarrow> [] | Some idxs \<Rightarrow> idxs)"

text \<open>
  \<open>find_longest_match\<close>. The dictionaries \<open>j2len\<close> and \<open>newj2len\<close> are maps; the loop
  state is \<open>(newj2len, besti, bestj, bestsize)\<close>.
  \<^verbatim>\<open>
  besti, bestj, bestsize = alo, blo, 0
  j2len = {}
  for i in range(alo, ahi):
      newj2len = {}
      for j in b2j.get(a[i], nothing):
          if j < blo:
              continue
          if j >= bhi:
              break
          k = newj2len[j] = j2len.get(j-1, 0) + 1
          if k > bestsize:
              besti, bestj, bestsize = i-k+1, j-k+1, k
      j2len = newj2len
  \<close>
  The positions are ascending, so the \<open>break\<close> leaves out exactly the positions
  \<open>j \<ge> bhi\<close>. For \<open>j = 0\<close> the key \<open>j - 1\<close> is \<open>-1\<close>, which is never in the dictionary.
\<close>

type_synonym best = "nat \<times> nat \<times> nat"

definition j2len_get_prev :: "(nat \<rightharpoonup> nat) \<Rightarrow> nat \<Rightarrow> nat" where
  "j2len_get_prev j2len j =
     (if j = 0 then 0 else case j2len (j - 1) of None \<Rightarrow> 0 | Some k \<Rightarrow> k)"

definition match_step :: "(nat \<rightharpoonup> nat) \<Rightarrow> nat \<Rightarrow> nat \<Rightarrow> (nat \<rightharpoonup> nat) \<times> best \<Rightarrow> (nat \<rightharpoonup> nat) \<times> best" where
  "match_step j2len i j st =
     (case st of (newj2len, besti, bestj, bestsize) \<Rightarrow>
        let k = j2len_get_prev j2len j + 1
        in (newj2len(j \<mapsto> k),
            if k > bestsize then (i + 1 - k, j + 1 - k, k) else (besti, bestj, bestsize)))"

definition match_row :: "string \<Rightarrow> (char \<times> nat list) list \<Rightarrow> nat \<Rightarrow> nat \<Rightarrow> nat \<Rightarrow>
    (nat \<rightharpoonup> nat) \<times> best \<Rightarrow> (nat \<rightharpoonup> nat) \<times> best" where
  "match_row a b2j blo bhi i st =
     (case st of (j2len, bst) \<Rightarrow>
        fold (match_step j2len i)
             (filter (\<lambda>j. blo \<le> j \<and> j < bhi) (b2j_get b2j (a ! i)))
             (Map.empty, bst))"

text \<open>
  The two loops that extend the match over elements that are not junk (no element is junk
  when there is no junk function, so the two loops over junk elements that follow them in
  the library never run):
  \<^verbatim>\<open>
  while besti > alo and bestj > blo and \
        not isbjunk(b[bestj-1]) and a[besti-1] == b[bestj-1]:
      besti, bestj, bestsize = besti-1, bestj-1, bestsize+1
  while besti+bestsize < ahi and bestj+bestsize < bhi and \
        not isbjunk(b[bestj+bestsize]) and a[besti+bestsize] == b[bestj+bestsize]:
      bestsize += 1
  \<close>
\<close>

function extend_left :: "string \<Rightarrow> string \<Rightarrow> nat \<Rightarrow> nat \<Rightarrow> best \<Rightarrow> best" where
  "extend_left a b alo blo (besti, bestj, bestsize) =
     (if besti > alo \<and> bestj > blo \<and> a ! (besti - 1) = b ! (bestj - 1)
      then extend_left a b alo blo (besti - 1, bestj - 1, bestsize + 1)
      else (besti, bestj, bestsize))"
  by pat_completeness auto
termination
  by (relation "measure (\<lambda>(a, b, alo, blo, besti, bestj, bestsize). besti)") auto

declare extend_left.simps [simp del]

function extend_right :: "string \<Rightarrow> string \<Rightarrow> nat \<Rightarrow> nat \<Rightarrow> best \<Rightarrow> best" where
  "extend_right a b ahi bhi (besti, bestj, bestsize) =
     (if besti + bestsize < ahi \<and> bestj + bestsize < bhi \<and>
         a ! (besti + bestsize) = b ! (bestj + bestsize)
      then extend_right a b ahi bhi (besti, bestj, bestsize + 1)
      else (besti, bestj, bestsize))"
  by pat_completeness auto
termination
  by (relation "measure (\<lambda>(a, b, ahi, bhi, besti, bestj, bestsize). ahi - (besti + bestsize))")
     auto

declare extend_right.simps [simp del]

definition find_longest_match ::
  "string \<Rightarrow> string \<Rightarrow> (char \<times> nat list) list \<Rightarrow> nat \<Rightarrow> nat \<Rightarrow> nat \<Rightarrow> nat \<Rightarrow> best" where
  "find_longest_match a b b2j alo ahi blo bhi =
     extend_right a b ahi bhi
       (extend_left a b alo blo
          (snd (fold (match_row a b2j blo bhi) [alo ..< ahi] (Map.empty, (alo, blo, 0)))))"

text \<open>
  \<open>get_matching_blocks\<close> takes a block from the queue, finds its longest match and queues
  the parts left and right of it; \<open>ratio\<close> adds up the sizes of the matches, and the order in
  which the blocks are taken does not change the sum:
  \<^verbatim>\<open>
  queue = [(0, la, 0, lb)]
  while queue:
      alo, ahi, blo, bhi = queue.pop()
      i, j, k = x = self.find_longest_match(alo, ahi, blo, bhi)
      if k:
          matching_blocks.append(x)
          if alo < i and blo < j:
              queue.append((alo, i, blo, j))
          if i+k < ahi and j+k < bhi:
              queue.append((i+k, ahi, j+k, bhi))
  \<close>
  A match found in \<open>a[alo:ahi]\<close> lies in it, \<open>alo \<le> i\<close> and \<open>i + k \<le> ahi\<close>; the
  recursion states this bound, which makes the two parts shorter than the block.
\<close>

function matches ::
  "string \<Rightarrow> string \<Rightarrow> (char \<times> nat list) list \<Rightarrow> nat \<Rightarrow> nat \<Rightarrow> nat \<Rightarrow> nat \<Rightarrow> nat" where
  "matches a b b2j alo ahi blo bhi =
     (case find_longest_match a b b2j alo ahi blo bhi of (i, j, k) \<Rightarrow>
        if k = 0 \<or> i < alo \<or> ahi < i + k then 0
        else k + (if alo < i \<and> blo < j then matches a b b2j alo i blo j else 0)
               + (if i + k < ahi \<and> j + k < bhi then matches a b b2j (i + k) ahi (j + k) bhi
                  else 0))"
  by pat_completeness auto
termination
  by (relation "measure (\<lambda>(a, b, b2j, alo, ahi, blo, bhi). ahi - alo)") auto

declare matches.simps [simp del]

text \<open>
  \<^verbatim>\<open>
  def _calculate_ratio(matches, length):
      if length:
          return 2.0 * matches / length
      return 1.0
  \<close>
\<close>

definition seq_ratio :: "string \<Rightarrow> string \<Rightarrow> rat" where
  "seq_ratio a b =
     (let len = length a + length b in
      if len = 0 then 1
      else 2 * of_nat (matches a b (chain_b b) 0 (length a) 0 (length b)) / of_nat len)"

section \<open>Perfect-match detector (find\_perfect\_cognates.py)\<close>

definition LANGUAGES :: "(string \<times> string) list" where
  "LANGUAGES =
     [(''en'', ''English''), (''es'', ''Spanish''), (''fr'', ''French''), (''it'', ''Italian''),
      (''pt'', ''Portuguese''), (''ro'', ''Romanian''), (''ca'', ''Catalan''),
      (''gl'', ''Galician'')]"

text \<open>
  \<open>word_langs\<close> is a \<open>defaultdict(list)\<close>; a dictionary keeps its keys in the order of
  their first insertion, and the detector iterates over it, so it is an association list in
  that order (as \<open>b2j\<close> above). \<open>dict_append word_langs word code\<close> is
  \<open>word_langs[word].append(code)\<close>.
\<close>

text \<open>\<open>",".join(xs)\<close>\<close>

fun join_comma :: "string list \<Rightarrow> string" where
  "join_comma [] = []"
| "join_comma [x] = x"
| "join_comma (x # y # ys) = x @ '','' @ join_comma (y # ys)"

text \<open>A row of the detector's output, \<open>[rank, english_meaning, word, languages_found, count]\<close>.\<close>

record perfect_row =
  p_Rank :: int
  p_English_Meaning :: string
  p_Word :: string
  p_Languages_Found :: string
  p_Count :: int

text \<open>
  \<^verbatim>\<open>
  word_langs = defaultdict(list)
  word_langs[english_meaning].append("en")
  for code, _name in LANGUAGES:
      if code == "en":
          continue
      word = by_lang_rank.get((code, rank), "").strip()
      if not word:
          continue
      word_langs[word].append(code)
  \<close>
\<close>

definition add_language :: "lexicon \<Rightarrow> int \<Rightarrow> string \<times> string \<Rightarrow>
    (string \<times> string list) list \<Rightarrow> (string \<times> string list) list" where
  "add_language by_lang_rank rank lang word_langs =
     (case lang of (code, name) \<Rightarrow>
        if code = ''en'' then word_langs
        else let word = strip (get_word by_lang_rank code rank)
             in if word = [] then word_langs else dict_append word_langs word code)"

definition build_word_langs :: "string \<Rightarrow> lexicon \<Rightarrow> int \<Rightarrow> (string \<times> string list) list" where
  "build_word_langs english_meaning by_lang_rank rank =
     fold (add_language by_lang_rank rank) LANGUAGES (dict_append [] english_meaning ''en'')"

text \<open>
  \<^verbatim>\<open>
  for word, codes in word_langs.items():
      if len(codes) < 2:
          continue
      languages_found = ",".join(sorted(codes))
      count = len(codes)
      rows.append([rank, english_meaning, word, languages_found, count])
  \<close>
\<close>

definition word_rows :: "int \<Rightarrow> string \<Rightarrow> string \<times> string list \<Rightarrow> perfect_row list" where
  "word_rows rank english_meaning item =
     (case item of (word, codes) \<Rightarrow>
        if length codes < 2 then []
        else [\<lparr>p_Rank = rank, p_English_Meaning = english_meaning, p_Word = word,
                p_Languages_Found = join_comma (sort codes),
                p_Count = int (length codes)\<rparr>])"

text \<open>
  The body of the loop over the ranks:
  \<^verbatim>\<open>
  english_meaning = english_by_rank[rank - 1].strip()
  if not english_meaning:
      continue
  \<close>
  followed by the two loops above.
\<close>

definition perfect_rank_rows :: "string list \<Rightarrow> lexicon \<Rightarrow> int \<Rightarrow> perfect_row list" where
  "perfect_rank_rows english_by_rank by_lang_rank rank =
     (let english_meaning = strip (english_by_rank ! nat (rank - 1)) in
      if english_meaning = [] then []
      else concat (map (word_rows rank english_meaning)
                       (build_word_langs english_meaning by_lang_rank rank)))"

text \<open>
  \<^verbatim>\<open>
  max_rank = len(english_by_rank)
  for rank in range(1, max_rank + 1):
  \<close>
\<close>

definition find_universal_perfect_cognates :: "string list \<Rightarrow> lexicon \<Rightarrow> perfect_row list" where
  "find_universal_perfect_cognates english_by_rank by_lang_rank =
     concat (map (perfect_rank_rows english_by_rank by_lang_rank)
                 [1 .. int (length english_by_rank)])"

text \<open>
  To state what the detector emits: \<open>word_at\<close> is the word that a language produces at a
  rank, as the detector reads it (the reference list for \<open>en\<close>, the lexicon for every other
  code, both stripped); \<open>contributions\<close> are the pairs \<open>(word, code)\<close> in the order in which
  the loop above appends them to \<open>word_langs\<close>; \<open>first_occurrences\<close> are the elements of a
  list in the order in which they first occur.
\<close>

definition word_at :: "string list \<Rightarrow> lexicon \<Rightarrow> string \<Rightarrow> int \<Rightarrow> string" where
  "word_at english_by_rank by_lang_rank code rank =
     (if code = ''en'' then strip (english_by_rank ! nat (rank - 1))
      else strip (get_word by_lang_rank code rank))"

definition contributions :: "string \<Rightarrow> lexicon \<Rightarrow> int \<Rightarrow> (string \<times> string) list" where
  "contributions english_meaning by_lang_rank rank =
     (english_meaning, ''en'') #
     concat (map (\<lambda>(code, name).
                    if code = ''en'' then []
                    else let word = strip (get_word by_lang_rank code rank)
                         in if word = [] then [] else [(word, code)])
                 LANGUAGES)"

definition first_occurrences :: "'a list \<Rightarrow> 'a list" where
  "first_occurrences xs = rev (remdups (rev xs))"

section \<open>Merge and audit pipeline (recreate\_master\_cognate.py)\<close>

text \<open>
  The two data frames read from the detectors' files are lists of rows, \<open>perfect_row\<close> and
  \<open>near_row\<close>, with the cells already of the type the pipeline uses them at (the rank an
  integer, the score a number, every other cell a string).
\<close>

text \<open>\<open>s.split(',')\<close>: the pieces between the commas; one piece for a string with no comma.\<close>

fun split_comma :: "string \<Rightarrow> string list" where
  "split_comma [] = [[]]"
| "split_comma (c # cs) =
     (if c = CHR '','' then [] # split_comma cs
      else (case split_comma cs of
              [] \<Rightarrow> [[c]]
            | w # ws \<Rightarrow> (c # w) # ws))"

text \<open>The rows before the audit, with the eight columns of \<open>columns\<close>.\<close>

record combined_row =
  Rank :: int
  English_Reference :: string
  Word_A :: string
  Word_B :: string
  Lang_A :: string
  Lang_B :: string
  Match_Type :: string
  Similarity_Score :: rat


text \<open>
  \<^verbatim>\<open>
  languages = row['Languages_Found'].split(',')
  word = row['Word']
  for i in range(len(languages)):
      for j in range(i + 1, len(languages)):
          perfect_processed.append({
              'Rank': row['Rank'], 'English_Reference': row['English_Meaning'],
              'Word_A': word, 'Word_B': word,
              'Lang_A': languages[i].strip(), 'Lang_B': languages[j].strip(),
              'Match_Type': 'Perfect', 'Similarity_Score': 1.0})
  \<close>
\<close>

definition perfect_pair :: "perfect_row \<Rightarrow> string \<Rightarrow> string \<Rightarrow> combined_row" where
  "perfect_pair row lang_a lang_b =
     \<lparr>Rank = p_Rank row, English_Reference = p_English_Meaning row,
      Word_A = p_Word row, Word_B = p_Word row,
      Lang_A = strip lang_a, Lang_B = strip lang_b,
      Match_Type = ''Perfect'', Similarity_Score = 1\<rparr>"

definition perfect_pairs :: "perfect_row \<Rightarrow> combined_row list" where
  "perfect_pairs row =
     (let languages = split_comma (p_Languages_Found row) in
      concat (map (\<lambda>i. map (\<lambda>j. perfect_pair row (languages ! i) (languages ! j))
                            [i + 1 ..< length languages])
                  [0 ..< length languages]))"
















section \<open>Properties of the pattern delta\<close>

lemma lcp_loop_unfold_True:
  "i < n \<Longrightarrow> a ! i = b ! i \<Longrightarrow> lcp_loop a b n i = lcp_loop a b n (Suc i)"
  by (subst lcp_loop.simps) simp

lemma lcp_loop_unfold_False:
  "\<not> (i < n \<and> a ! i = b ! i) \<Longrightarrow> lcp_loop a b n i = i"
  by (subst lcp_loop.simps) auto

lemma lcp_loop_spec:
  "i \<le> n \<Longrightarrow>
     i \<le> lcp_loop a b n i \<and> lcp_loop a b n i \<le> n \<and>
     (\<forall>k. i \<le> k \<and> k < lcp_loop a b n i \<longrightarrow> a ! k = b ! k) \<and>
     (lcp_loop a b n i = n \<or> a ! (lcp_loop a b n i) \<noteq> b ! (lcp_loop a b n i))"
proof (induction a b n i rule: lcp_loop.induct)
  case (1 a b n i)
  show ?case
  proof (cases "i < n \<and> a ! i = b ! i")
    case True
    then have eq: "lcp_loop a b n i = lcp_loop a b n (Suc i)"
      by (simp add: lcp_loop_unfold_True)
    from True have "Suc i \<le> n" by simp
    from "1.IH"[OF True this] have ih:
      "Suc i \<le> lcp_loop a b n (Suc i)" "lcp_loop a b n (Suc i) \<le> n"
      "\<forall>k. Suc i \<le> k \<and> k < lcp_loop a b n (Suc i) \<longrightarrow> a ! k = b ! k"
      "lcp_loop a b n (Suc i) = n \<or> a ! (lcp_loop a b n (Suc i)) \<noteq> b ! (lcp_loop a b n (Suc i))"
      by blast+
    have "\<forall>k. i \<le> k \<and> k < lcp_loop a b n (Suc i) \<longrightarrow> a ! k = b ! k"
    proof (intro allI impI)
      fix k assume k: "i \<le> k \<and> k < lcp_loop a b n (Suc i)"
      show "a ! k = b ! k"
      proof (cases "k = i")
        case True with \<open>i < n \<and> a ! i = b ! i\<close> show ?thesis by simp
      next
        case False
        with k have "Suc i \<le> k" by simp
        with ih(3) k show ?thesis by blast
      qed
    qed
    with ih(1,2,4) show ?thesis unfolding eq by simp
  next
    case False
    then have eq: "lcp_loop a b n i = i" by (rule lcp_loop_unfold_False)
    from False "1.prems" have "i = n \<or> a ! i \<noteq> b ! i" by auto
    with "1.prems" show ?thesis unfolding eq by auto
  qed
qed

lemma lcs_loop_unfold_True:
  "i < n \<Longrightarrow> a ! (length a - 1 - i) = b ! (length b - 1 - i) \<Longrightarrow>
   lcs_loop a b n i = lcs_loop a b n (Suc i)"
  by (subst lcs_loop.simps) simp

lemma lcs_loop_unfold_False:
  "\<not> (i < n \<and> a ! (length a - 1 - i) = b ! (length b - 1 - i)) \<Longrightarrow> lcs_loop a b n i = i"
  by (subst lcs_loop.simps) auto

lemma lcs_loop_spec:
  "i \<le> n \<Longrightarrow>
     i \<le> lcs_loop a b n i \<and> lcs_loop a b n i \<le> n \<and>
     (\<forall>k. i \<le> k \<and> k < lcs_loop a b n i \<longrightarrow>
          a ! (length a - 1 - k) = b ! (length b - 1 - k)) \<and>
     (lcs_loop a b n i = n \<or>
      a ! (length a - 1 - lcs_loop a b n i) \<noteq> b ! (length b - 1 - lcs_loop a b n i))"
proof (induction a b n i rule: lcs_loop.induct)
  case (1 a b n i)
  let ?c = "i < n \<and> a ! (length a - 1 - i) = b ! (length b - 1 - i)"
  show ?case
  proof (cases ?c)
    case True
    then have eq: "lcs_loop a b n i = lcs_loop a b n (Suc i)"
      by (simp add: lcs_loop_unfold_True)
    from True have "Suc i \<le> n" by simp
    from "1.IH"[OF True this] have ih:
      "Suc i \<le> lcs_loop a b n (Suc i)" "lcs_loop a b n (Suc i) \<le> n"
      "\<forall>k. Suc i \<le> k \<and> k < lcs_loop a b n (Suc i) \<longrightarrow>
          a ! (length a - 1 - k) = b ! (length b - 1 - k)"
      "lcs_loop a b n (Suc i) = n \<or>
       a ! (length a - 1 - lcs_loop a b n (Suc i)) \<noteq> b ! (length b - 1 - lcs_loop a b n (Suc i))"
      by blast+
    have "\<forall>k. i \<le> k \<and> k < lcs_loop a b n (Suc i) \<longrightarrow>
             a ! (length a - 1 - k) = b ! (length b - 1 - k)"
    proof (intro allI impI)
      fix k assume k: "i \<le> k \<and> k < lcs_loop a b n (Suc i)"
      show "a ! (length a - 1 - k) = b ! (length b - 1 - k)"
      proof (cases "k = i")
        case True with \<open>?c\<close> show ?thesis by simp
      next
        case False
        with k have "Suc i \<le> k" by simp
        with ih(3) k show ?thesis by blast
      qed
    qed
    with ih(1,2,4) show ?thesis unfolding eq by simp
  next
    case False
    then have eq: "lcs_loop a b n i = i" by (rule lcs_loop_unfold_False)
    from False "1.prems"
    have "i = n \<or> a ! (length a - 1 - i) \<noteq> b ! (length b - 1 - i)" by auto
    with "1.prems" show ?thesis unfolding eq by auto
  qed
qed

lemma prefix_len_le: "longest_common_prefix a b \<le> min (length a) (length b)"
  using lcp_loop_spec[of 0 "min (length a) (length b)" a b]
  by (simp add: longest_common_prefix_def)

lemma prefix_common: "take (longest_common_prefix a b) a = take (longest_common_prefix a b) b"
proof -
  have le: "longest_common_prefix a b \<le> length a" "longest_common_prefix a b \<le> length b"
    using prefix_len_le[of a b] by simp_all
  have "\<And>i. i < longest_common_prefix a b \<longrightarrow> a ! i = b ! i"
    using lcp_loop_spec[of 0 "min (length a) (length b)" a b]
    by (simp add: longest_common_prefix_def)
  with le show ?thesis by (intro nth_take_lemma) auto
qed

lemma prefix_longest:
  assumes "m \<le> min (length a) (length b)" and "take m a = take m b"
  shows "m \<le> longest_common_prefix a b"
proof (rule ccontr)
  let ?p = "longest_common_prefix a b"
  assume "\<not> m \<le> ?p"
  then have lt: "?p < m" by simp
  with assms(1) have "?p \<noteq> min (length a) (length b)" by arith
  then have ne: "a ! ?p \<noteq> b ! ?p"
    using lcp_loop_spec[of 0 "min (length a) (length b)" a b]
    by (simp add: longest_common_prefix_def)
  from lt have "a ! ?p = take m a ! ?p" "b ! ?p = take m b ! ?p" by simp_all
  with assms(2) ne show False by simp
qed

lemma suffix_len_le: "longest_common_suffix a b \<le> min (length a) (length b)"
  using lcs_loop_spec[of 0 "min (length a) (length b)" a b]
  by (simp add: longest_common_suffix_def)

lemma suffix_agree:
  "k < longest_common_suffix a b \<Longrightarrow> a ! (length a - 1 - k) = b ! (length b - 1 - k)"
  using lcs_loop_spec[of 0 "min (length a) (length b)" a b]
  by (simp add: longest_common_suffix_def)

lemma suffix_common:
  assumes "s \<le> longest_common_suffix a b"
  shows "drop (length a - s) a = drop (length b - s) b"
proof (rule nth_equalityI)
  from assms suffix_len_le[of a b] have sa: "s \<le> length a" and sb: "s \<le> length b" by simp_all
  then show "length (drop (length a - s) a) = length (drop (length b - s) b)" by simp
  fix i assume "i < length (drop (length a - s) a)"
  with sa have i: "i < s" by simp
  with assms have "s - 1 - i < longest_common_suffix a b" by simp
  from suffix_agree[OF this]
  have "a ! (length a - 1 - (s - 1 - i)) = b ! (length b - 1 - (s - 1 - i))" .
  moreover from i sa have "length a - 1 - (s - 1 - i) = length a - s + i" by simp
  moreover from i sb have "length b - 1 - (s - 1 - i) = length b - s + i" by simp
  ultimately show "drop (length a - s) a ! i = drop (length b - s) b ! i"
    using sa sb i by simp
qed

lemma suffix_longest:
  assumes "m \<le> min (length a) (length b)" and "drop (length a - m) a = drop (length b - m) b"
  shows "m \<le> longest_common_suffix a b"
proof (rule ccontr)
  let ?s = "longest_common_suffix a b"
  assume "\<not> m \<le> ?s"
  then have lt: "?s < m" by simp
  with assms(1) have "?s \<noteq> min (length a) (length b)" by arith
  then have ne: "a ! (length a - 1 - ?s) \<noteq> b ! (length b - 1 - ?s)"
    using lcs_loop_spec[of 0 "min (length a) (length b)" a b]
    by (simp add: longest_common_suffix_def)
  from assms(1) have ma: "m \<le> length a" and mb: "m \<le> length b" by simp_all
  from lt ma have "drop (length a - m) a ! (m - 1 - ?s) = a ! (length a - 1 - ?s)" by simp
  moreover from lt mb have "drop (length b - m) b ! (m - 1 - ?s) = b ! (length b - 1 - ?s)"
    by simp
  ultimately show False using assms(2) ne by simp
qed

lemma clamped_suffix_le: "clamped_suffix_len a b \<le> longest_common_suffix a b"
  unfolding clamped_suffix_len_def Let_def by arith

lemma prefix_plus_clamped_suffix:
  "longest_common_prefix a b + clamped_suffix_len a b \<le> min (length a) (length b)"
  using prefix_len_le[of a b] unfolding clamped_suffix_len_def Let_def by arith

lemma mid_eq: "mid a p s = drop p (take (length a - s) a)"
  by (simp add: mid_def slice_def)

lemma reconstruct:
  assumes "p + s \<le> length a"
  shows "a = take p a @ mid a p s @ drop (length a - s) a"
proof -
  from assms have "p \<le> length a - s" by simp
  then have "take p a = take p (take (length a - s) a)" by (simp add: min_def)
  then have "take p a @ mid a p s = take (length a - s) a"
    unfolding mid_eq by (simp only: append_take_drop_id)
  then have "take p a @ mid a p s @ drop (length a - s) a
               = take (length a - s) a @ drop (length a - s) a"
    by (metis append.assoc)
  then show ?thesis by simp
qed

subsection \<open>Claims about the pattern delta\<close>

text \<open>
  Claim C6. For non-empty words \<open>a\<close> and \<open>b\<close>, \<open>prefix_len\<close> is the length of the
  longest common prefix and the unclamped \<open>suffix_len\<close> the length of the longest common
  suffix; when their sum exceeds the length of the shorter word, the suffix length (and only
  it) is reduced to what the prefix leaves of the shorter word, so that prefix and suffix do
  not overlap; the clamped suffix is still common to both words, and each word is the
  concatenation of the recovered prefix, its middle fragment and the recovered suffix.
\<close>

theorem detect_delta_reconstructs:
  assumes "a \<noteq> []" and "b \<noteq> []"
  shows "(let p = longest_common_prefix a b;
              s0 = longest_common_suffix a b;
              s = clamped_suffix_len a b;
              n = min (length a) (length b)
          in take p a = take p b \<and>
             (\<forall>m\<le>n. take m a = take m b \<longrightarrow> m \<le> p) \<and>
             drop (length a - s0) a = drop (length b - s0) b \<and>
             (\<forall>m\<le>n. drop (length a - m) a = drop (length b - m) b \<longrightarrow> m \<le> s0) \<and>
             s = (if p + s0 > n then n - p else s0) \<and>
             p + s \<le> n \<and>
             drop (length a - s) a = drop (length b - s) b \<and>
             a = take p a @ a_mid a b @ drop (length a - s) a \<and>
             b = take p b @ b_mid a b @ drop (length b - s) b)"
proof -
  let ?p = "longest_common_prefix a b" and ?t = "longest_common_suffix a b"
  let ?s = "clamped_suffix_len a b" and ?n = "min (length a) (length b)"
  have 1: "take ?p a = take ?p b" by (rule prefix_common)
  have 2: "\<forall>m\<le>?n. take m a = take m b \<longrightarrow> m \<le> ?p"
    using prefix_longest by blast
  have 3: "drop (length a - ?t) a = drop (length b - ?t) b"
    by (rule suffix_common) simp
  have 4: "\<forall>m\<le>?n. drop (length a - m) a = drop (length b - m) b \<longrightarrow> m \<le> ?t"
    using suffix_longest by blast
  have 5: "?s = (if ?p + ?t > ?n then ?n - ?p else ?t)"
    by (simp add: clamped_suffix_len_def Let_def)
  have 6: "?p + ?s \<le> ?n" by (rule prefix_plus_clamped_suffix)
  have 7: "drop (length a - ?s) a = drop (length b - ?s) b"
    by (rule suffix_common) (rule clamped_suffix_le)
  from 6 have le: "?p + ?s \<le> length a" "?p + ?s \<le> length b" by simp_all
  have 8: "a = take ?p a @ a_mid a b @ drop (length a - ?s) a"
    unfolding a_mid_def by (rule reconstruct[OF le(1)])
  have 9: "b = take ?p b @ b_mid a b @ drop (length b - ?s) b"
    unfolding b_mid_def by (rule reconstruct[OF le(2)])
  from 1 2 3 4 5 6 7 8 9 show ?thesis unfolding Let_def by blast
qed


theorem detect_delta_reconstructs_witness:
  "''aa'' \<noteq> [] \<and> ''aaa'' \<noteq> [] \<and>
   longest_common_prefix ''aa'' ''aaa'' = 2 \<and> longest_common_suffix ''aa'' ''aaa'' = 2 \<and>
   clamped_suffix_len ''aa'' ''aaa'' = 0 \<and>
   ''aa'' = take 2 ''aa'' @ a_mid ''aa'' ''aaa'' @ drop (length ''aa'' - 0) ''aa'' \<and>
   ''aaa'' = take 2 ''aaa'' @ b_mid ''aa'' ''aaa'' @ drop (length ''aaa'' - 0) ''aaa''"
proof -
  have ne: "''aa'' \<noteq> []" "''aaa'' \<noteq> []" by simp_all
  have p: "longest_common_prefix ''aa'' ''aaa'' = 2" by code_simp
  have s0: "longest_common_suffix ''aa'' ''aaa'' = 2" by code_simp
  have s: "clamped_suffix_len ''aa'' ''aaa'' = 0" by code_simp
  from detect_delta_reconstructs[OF ne] show ?thesis
    unfolding Let_def p s0 s using ne by simp
qed

text \<open>
  Claim C9. For non-empty, distinct words at least one middle fragment is non-empty, so
  \<open>detect_delta\<close> returns the \<open>delta: ...\<close> description and never the
  \<open>delta_whole: ...\<close> fallback.
\<close>

theorem detect_delta_never_whole:
  assumes "a \<noteq> []" and "b \<noteq> []" and "a \<noteq> b"
  shows "(a_mid a b \<noteq> [] \<or> b_mid a b \<noteq> []) \<and>
         detect_delta a b = ''delta: '' @ quoted (a_mid a b) @ '' vs '' @ quoted (b_mid a b) \<and>
         detect_delta a b \<noteq> ''delta_whole: '' @ quoted a @ '' vs '' @ quoted b"
proof -
  let ?p = "longest_common_prefix a b" and ?s = "clamped_suffix_len a b"
  have mids: "a_mid a b \<noteq> [] \<or> b_mid a b \<noteq> []"
  proof (rule ccontr)
    assume "\<not> ?thesis"
    then have e: "a_mid a b = []" "b_mid a b = []" by simp_all
    have le: "?p + ?s \<le> length a" "?p + ?s \<le> length b"
      using prefix_plus_clamped_suffix[of a b] by simp_all
    have "a = take ?p a @ drop (length a - ?s) a"
      using reconstruct[OF le(1)] e(1) by (simp add: a_mid_def)
    moreover have "b = take ?p b @ drop (length b - ?s) b"
      using reconstruct[OF le(2)] e(2) by (simp add: b_mid_def)
    moreover have "take ?p a = take ?p b" by (rule prefix_common)
    moreover have "drop (length a - ?s) a = drop (length b - ?s) b"
      by (rule suffix_common) (rule clamped_suffix_le)
    ultimately have "a = b" by metis
    with assms(3) show False by simp
  qed
  with assms have out: "detect_delta a b = ''delta: '' @ quoted (a_mid a b) @ '' vs '' @ quoted (b_mid a b)"
    unfolding detect_delta_def by simp
  have "''delta: '' @ quoted (a_mid a b) @ '' vs '' @ quoted (b_mid a b)
          \<noteq> ''delta_whole: '' @ quoted a @ '' vs '' @ quoted b"
    by simp
  with mids out show ?thesis by simp
qed

theorem detect_delta_never_whole_witness:
  "''nation'' \<noteq> [] \<and> ''nacion'' \<noteq> [] \<and> ''nation'' \<noteq> ''nacion'' \<and>
   a_mid ''nation'' ''nacion'' = ''t'' \<and> b_mid ''nation'' ''nacion'' = ''c'' \<and>
   detect_delta ''nation'' ''nacion'' = ''delta: '' @ quoted ''t'' @ '' vs '' @ quoted ''c''"
proof -
  have ne: "''nation'' \<noteq> []" "''nacion'' \<noteq> []" "''nation'' \<noteq> ''nacion''" by simp_all
  have a: "a_mid ''nation'' ''nacion'' = ''t''" by code_simp
  have b: "b_mid ''nation'' ''nacion'' = ''c''" by code_simp
  from detect_delta_never_whole[OF ne] a b ne show ?thesis by simp
qed
section \<open>Properties of the merge and audit pipeline\<close>







lemma length_combinations2_aux:
  "2 * length (combinations2 xs) + length xs = length xs * length xs"
  by (induction xs) (auto simp: algebra_simps)

lemma length_combinations2: "length (combinations2 xs) = length xs * (length xs - 1) div 2"
proof -
  have "length xs * (length xs - 1) = length xs * length xs - length xs"
    by (simp add: algebra_simps)
  also have "\<dots> = 2 * length (combinations2 xs)"
    using length_combinations2_aux[of xs] by arith
  finally show ?thesis by simp
qed

lemma index_pairs_Cons:
  "concat (map (\<lambda>i. map (\<lambda>j. f ((x # xs) ! i) ((x # xs) ! j)) [i + 1 ..< length (x # xs)])
               [0 ..< length (x # xs)])
   = map (f x) xs @
     concat (map (\<lambda>i. map (\<lambda>j. f (xs ! i) (xs ! j)) [i + 1 ..< length xs]) [0 ..< length xs])"
proof -
  have up: "[0 ..< length (x # xs)] = 0 # map Suc [0 ..< length xs]"
    by (simp add: upt_conv_Cons map_Suc_upt del: upt_Suc)
  have first: "map (\<lambda>j. f ((x # xs) ! 0) ((x # xs) ! j)) [0 + 1 ..< length (x # xs)] = map (f x) xs"
  proof -
    have "[0 + 1 ..< length (x # xs)] = map Suc [0 ..< length xs]"
      by (simp add: map_Suc_upt del: upt_Suc)
    then have "map (\<lambda>j. f ((x # xs) ! 0) ((x # xs) ! j)) [0 + 1 ..< length (x # xs)]
                 = map (\<lambda>j. f x (xs ! j)) [0 ..< length xs]"
      by (simp add: comp_def del: upt_Suc)
    also have "\<dots> = map (f x) (map (\<lambda>j. xs ! j) [0 ..< length xs])" by (simp add: comp_def)
    also have "\<dots> = map (f x) xs" by (simp add: map_nth)
    finally show ?thesis .
  qed
  have rest: "map (\<lambda>i. map (\<lambda>j. f ((x # xs) ! i) ((x # xs) ! j)) [i + 1 ..< length (x # xs)])
                  (map Suc [0 ..< length xs])
              = map (\<lambda>i. map (\<lambda>j. f (xs ! i) (xs ! j)) [i + 1 ..< length xs]) [0 ..< length xs]"
  proof (rule nth_equalityI)
    show "length (map (\<lambda>i. map (\<lambda>j. f ((x # xs) ! i) ((x # xs) ! j)) [i + 1 ..< length (x # xs)])
                  (map Suc [0 ..< length xs]))
          = length (map (\<lambda>i. map (\<lambda>j. f (xs ! i) (xs ! j)) [i + 1 ..< length xs]) [0 ..< length xs])"
      by simp
  next
    fix i assume "i < length (map (\<lambda>i. map (\<lambda>j. f ((x # xs) ! i) ((x # xs) ! j))
                        [i + 1 ..< length (x # xs)]) (map Suc [0 ..< length xs]))"
    then have i: "i < length xs" by simp
    have "[Suc i + 1 ..< length (x # xs)] = map Suc [i + 1 ..< length xs]"
      by (simp add: map_Suc_upt del: upt_Suc)
    then have "map (\<lambda>j. f ((x # xs) ! Suc i) ((x # xs) ! j)) [Suc i + 1 ..< length (x # xs)]
               = map (\<lambda>j. f (xs ! i) (xs ! j)) [i + 1 ..< length xs]"
      by (simp add: comp_def del: upt_Suc)
    with i show "map (\<lambda>i. map (\<lambda>j. f ((x # xs) ! i) ((x # xs) ! j)) [i + 1 ..< length (x # xs)])
                  (map Suc [0 ..< length xs]) ! i
          = map (\<lambda>i. map (\<lambda>j. f (xs ! i) (xs ! j)) [i + 1 ..< length xs]) [0 ..< length xs] ! i"
      by (simp del: upt_Suc)
  qed
  show ?thesis by (simp only: up list.map concat.simps first rest)
qed

lemma index_pairs_combinations2:
  "concat (map (\<lambda>i. map (\<lambda>j. f (xs ! i) (xs ! j)) [i + 1 ..< length xs]) [0 ..< length xs])
   = map (\<lambda>(a, b). f a b) (combinations2 xs)"
proof (induction xs)
  case Nil
  show ?case by simp
next
  case (Cons x xs)
  show ?case unfolding index_pairs_Cons Cons.IH by (simp add: comp_def)
qed

lemma set_combinations2_subset:
  "(a, b) \<in> set (combinations2 xs) \<Longrightarrow> a \<in> set xs \<and> b \<in> set xs"
  by (induction xs) auto

lemma set_combinations2_distinct:
  "distinct xs \<Longrightarrow>
   (\<lambda>(a, b). {a, b}) ` set (combinations2 xs) = {{a, b} |a b. a \<in> set xs \<and> b \<in> set xs \<and> a \<noteq> b}"
proof (induction xs)
  case Nil
  show ?case by simp
next
  case (Cons x xs)
  then have ih: "(\<lambda>(a, b). {a, b}) ` set (combinations2 xs)
                   = {{a, b} |a b. a \<in> set xs \<and> b \<in> set xs \<and> a \<noteq> b}"
    and x: "x \<notin> set xs" by simp_all
  have "(\<lambda>(a, b). {a, b}) ` set (combinations2 (x # xs))
          = (\<lambda>y. {x, y}) ` set xs \<union> (\<lambda>(a, b). {a, b}) ` set (combinations2 xs)"
    by (auto simp: image_Un image_image)
  also have "\<dots> = (\<lambda>y. {x, y}) ` set xs \<union> {{a, b} |a b. a \<in> set xs \<and> b \<in> set xs \<and> a \<noteq> b}"
    by (simp only: ih)
  also have "\<dots> = {{a, b} |a b. a \<in> set (x # xs) \<and> b \<in> set (x # xs) \<and> a \<noteq> b}"
  proof (intro set_eqI iffI)
    fix S assume "S \<in> (\<lambda>y. {x, y}) ` set xs \<union> {{a, b} |a b. a \<in> set xs \<and> b \<in> set xs \<and> a \<noteq> b}"
    then consider y where "y \<in> set xs" "S = {x, y}"
      | a b where "a \<in> set xs" "b \<in> set xs" "a \<noteq> b" "S = {a, b}" by blast
    then show "S \<in> {{a, b} |a b. a \<in> set (x # xs) \<and> b \<in> set (x # xs) \<and> a \<noteq> b}"
    proof cases
      case 1
      with x have "x \<noteq> y" by blast
      with 1 show ?thesis by auto
    next
      case 2
      then show ?thesis by auto
    qed
  next
    fix S assume "S \<in> {{a, b} |a b. a \<in> set (x # xs) \<and> b \<in> set (x # xs) \<and> a \<noteq> b}"
    then obtain a b where ab: "a \<in> set (x # xs)" "b \<in> set (x # xs)" "a \<noteq> b" "S = {a, b}"
      by blast
    show "S \<in> (\<lambda>y. {x, y}) ` set xs \<union> {{a, b} |a b. a \<in> set xs \<and> b \<in> set xs \<and> a \<noteq> b}"
    proof (cases "a = x")
      case True
      with ab have "b \<in> set xs" by auto
      with True ab show ?thesis by blast
    next
      case False
      note na = this
      show ?thesis
      proof (cases "b = x")
        case True
        with ab na have "a \<in> set xs" by auto
        moreover from True ab have "S = {x, a}" by auto
        ultimately show ?thesis by blast
      next
        case False
        with na ab have "a \<in> set xs" "b \<in> set xs" by auto
        with ab show ?thesis by blast
      qed
    qed
  qed
  finally show ?case .
qed

lemma distinct_combinations2:
  "distinct xs \<Longrightarrow> distinct (map (\<lambda>(a, b). {a, b}) (combinations2 xs))"
proof (induction xs)
  case Nil
  show ?case by simp
next
  case (Cons x xs)
  then have ih: "distinct (map (\<lambda>(a, b). {a, b}) (combinations2 xs))"
    and x: "x \<notin> set xs" and d: "distinct xs" by simp_all
  have inj: "inj_on (\<lambda>y. {x, y}) (set xs)"
    by (rule inj_onI) (auto simp: doubleton_eq_iff)
  have 1: "distinct (map (\<lambda>y. {x, y}) xs)"
    using d inj by (simp add: distinct_map)
  have 2: "set (map (\<lambda>y. {x, y}) xs) \<inter> set (map (\<lambda>(a, b). {a, b}) (combinations2 xs)) = {}"
  proof (rule ccontr)
    assume "\<not> ?thesis"
    then obtain y a b where yab: "y \<in> set xs" "(a, b) \<in> set (combinations2 xs)"
      "{x, y} = {a, b}"
      by auto
    from yab(2) have ab: "a \<in> set xs" "b \<in> set xs"
      using set_combinations2_subset[of a b xs] by simp_all
    from yab(3) have "x \<in> {a, b}" by blast
    then have "x = a \<or> x = b" by simp
    with ab x show False by blast
  qed
  have "map (\<lambda>(a, b). {a, b}) (combinations2 (x # xs))
          = map (\<lambda>y. {x, y}) xs @ map (\<lambda>(a, b). {a, b}) (combinations2 xs)"
    by (simp add: comp_def)
  with 1 2 ih show ?case by (simp only: distinct_append simp_thms)
qed

lemma perfect_pairs_eq:
  "perfect_pairs row =
     map (\<lambda>(a, b). perfect_pair row a b) (combinations2 (split_comma (p_Languages_Found row)))"
  unfolding perfect_pairs_def Let_def by (rule index_pairs_combinations2)

lemma map_combinations2: "combinations2 (map f xs) = map (\<lambda>(a, b). (f a, f b)) (combinations2 xs)"
  by (induction xs) (auto simp: comp_def)

lemma perfect_pairs_langs:
  "map (\<lambda>r. (Lang_A r, Lang_B r)) (perfect_pairs row)
     = combinations2 (map strip (split_comma (p_Languages_Found row)))"
  unfolding perfect_pairs_eq map_combinations2
  by (simp add: comp_def case_prod_unfold perfect_pair_def)

lemma perfect_pairs_fields:
  assumes "r \<in> set (perfect_pairs row)"
  shows "Word_A r = p_Word row \<and> Word_B r = p_Word row \<and> Match_Type r = ''Perfect'' \<and>
         Similarity_Score r = 1 \<and> Rank r = p_Rank row \<and>
         English_Reference r = p_English_Meaning row"
proof -
  from assms obtain a b where "r = perfect_pair row a b"
    unfolding perfect_pairs_eq by auto
  then show ?thesis by (simp add: perfect_pair_def)
qed

text \<open>
  Claim C7. A Perfect record whose \<open>Languages_Found\<close> lists \<open>n\<close> language codes is
  expanded into \<open>n (n - 1) / 2\<close> rows, one for each pair of positions \<open>i < j\<close> of the
  list. Every row has the record's word as \<open>Word_A\<close> and as \<open>Word_B\<close>, match type
  \<open>Perfect\<close>, score 1, and the record's rank and English reference. When the codes are
  pairwise different (a set of \<open>n\<close> languages), the rows are one for each unordered pair
  of languages of the set.
\<close>

theorem perfect_pairs_expansion:
  "(let languages = map strip (split_comma (p_Languages_Found row));
        n = length languages;
        rows = perfect_pairs row
    in length rows = n * (n - 1) div 2 \<and>
       map (\<lambda>r. (Lang_A r, Lang_B r)) rows = combinations2 languages \<and>
       (\<forall>r\<in>set rows.
          Word_A r = p_Word row \<and> Word_B r = Word_A r \<and> Match_Type r = ''Perfect'' \<and>
          Similarity_Score r = 1 \<and> Rank r = p_Rank row \<and>
          English_Reference r = p_English_Meaning row) \<and>
       (distinct languages \<longrightarrow>
          distinct (map (\<lambda>r. {Lang_A r, Lang_B r}) rows) \<and>
          (\<lambda>r. {Lang_A r, Lang_B r}) ` set rows =
            {{a, b} |a b. a \<in> set languages \<and> b \<in> set languages \<and> a \<noteq> b}))"
proof -
  let ?L = "map strip (split_comma (p_Languages_Found row))"
  let ?rows = "perfect_pairs row"
  have langs: "map (\<lambda>r. (Lang_A r, Lang_B r)) ?rows = combinations2 ?L"
    by (rule perfect_pairs_langs)
  have "length ?rows = length (map (\<lambda>r. (Lang_A r, Lang_B r)) ?rows)" by simp
  also have "\<dots> = length ?L * (length ?L - 1) div 2"
    unfolding langs by (rule length_combinations2)
  finally have len: "length ?rows = length ?L * (length ?L - 1) div 2" .
  have fields: "\<forall>r\<in>set ?rows.
          Word_A r = p_Word row \<and> Word_B r = Word_A r \<and> Match_Type r = ''Perfect'' \<and>
          Similarity_Score r = 1 \<and> Rank r = p_Rank row \<and>
          English_Reference r = p_English_Meaning row"
    using perfect_pairs_fields[of _ row] by metis
  have sets: "map (\<lambda>r. {Lang_A r, Lang_B r}) ?rows = map (\<lambda>(a, b). {a, b}) (combinations2 ?L)"
    unfolding langs[symmetric] by (simp add: comp_def)
  have dist: "distinct ?L \<longrightarrow>
          distinct (map (\<lambda>r. {Lang_A r, Lang_B r}) ?rows) \<and>
          (\<lambda>r. {Lang_A r, Lang_B r}) ` set ?rows =
            {{a, b} |a b. a \<in> set ?L \<and> b \<in> set ?L \<and> a \<noteq> b}"
  proof
    assume d: "distinct ?L"
    have "(\<lambda>r. {Lang_A r, Lang_B r}) ` set ?rows = set (map (\<lambda>r. {Lang_A r, Lang_B r}) ?rows)"
      by simp
    also have "\<dots> = (\<lambda>(a, b). {a, b}) ` set (combinations2 ?L)"
      unfolding sets by simp
    also have "\<dots> = {{a, b} |a b. a \<in> set ?L \<and> b \<in> set ?L \<and> a \<noteq> b}"
      by (rule set_combinations2_distinct[OF d])
    finally show "distinct (map (\<lambda>r. {Lang_A r, Lang_B r}) ?rows) \<and>
          (\<lambda>r. {Lang_A r, Lang_B r}) ` set ?rows =
            {{a, b} |a b. a \<in> set ?L \<and> b \<in> set ?L \<and> a \<noteq> b}"
      unfolding sets using distinct_combinations2[OF d] by blast
  qed
  from len langs fields dist show ?thesis unfolding Let_def by blast
qed

theorem perfect_pairs_expansion_witness:
  "perfect_pairs \<lparr>p_Rank = 12, p_English_Meaning = ''hotel'', p_Word = ''hotel'',
                   p_Languages_Found = ''en,es,fr'', p_Count = 3\<rparr> =
     [\<lparr>Rank = 12, English_Reference = ''hotel'', Word_A = ''hotel'', Word_B = ''hotel'',
       Lang_A = ''en'', Lang_B = ''es'', Match_Type = ''Perfect'', Similarity_Score = 1\<rparr>,
      \<lparr>Rank = 12, English_Reference = ''hotel'', Word_A = ''hotel'', Word_B = ''hotel'',
       Lang_A = ''en'', Lang_B = ''fr'', Match_Type = ''Perfect'', Similarity_Score = 1\<rparr>,
      \<lparr>Rank = 12, English_Reference = ''hotel'', Word_A = ''hotel'', Word_B = ''hotel'',
       Lang_A = ''es'', Lang_B = ''fr'', Match_Type = ''Perfect'', Similarity_Score = 1\<rparr>] \<and>
   distinct (map strip (split_comma ''en,es,fr'')) \<and>
   length (perfect_pairs \<lparr>p_Rank = 12, p_English_Meaning = ''hotel'', p_Word = ''hotel'',
                   p_Languages_Found = ''en,es,fr'', p_Count = 3\<rparr>) = 3 * (3 - 1) div 2 \<and>
   distinct (map (\<lambda>r. {Lang_A r, Lang_B r})
     (perfect_pairs \<lparr>p_Rank = 12, p_English_Meaning = ''hotel'', p_Word = ''hotel'',
                   p_Languages_Found = ''en,es,fr'', p_Count = 3\<rparr>))"
proof -
  let ?row = "\<lparr>p_Rank = 12, p_English_Meaning = ''hotel'', p_Word = ''hotel'',
                   p_Languages_Found = ''en,es,fr'', p_Count = 3\<rparr>"
  have L: "map strip (split_comma (p_Languages_Found ?row)) = [''en'', ''es'', ''fr'']"
    by code_simp
  have d: "distinct (map strip (split_comma ''en,es,fr''))" by code_simp
  have rows: "perfect_pairs ?row =
     [\<lparr>Rank = 12, English_Reference = ''hotel'', Word_A = ''hotel'', Word_B = ''hotel'',
       Lang_A = ''en'', Lang_B = ''es'', Match_Type = ''Perfect'', Similarity_Score = 1\<rparr>,
      \<lparr>Rank = 12, English_Reference = ''hotel'', Word_A = ''hotel'', Word_B = ''hotel'',
       Lang_A = ''en'', Lang_B = ''fr'', Match_Type = ''Perfect'', Similarity_Score = 1\<rparr>,
      \<lparr>Rank = 12, English_Reference = ''hotel'', Word_A = ''hotel'', Word_B = ''hotel'',
       Lang_A = ''es'', Lang_B = ''fr'', Match_Type = ''Perfect'', Similarity_Score = 1\<rparr>]"
    by code_simp
  have d': "distinct (map strip (split_comma (p_Languages_Found ?row)))" using d by simp
  from perfect_pairs_expansion[of ?row] d'
  have "length (perfect_pairs ?row) = 3 * (3 - 1) div 2 \<and>
        distinct (map (\<lambda>r. {Lang_A r, Lang_B r}) (perfect_pairs ?row))"
    unfolding Let_def L by simp
  with rows d show ?thesis by blast
qed

subsection \<open>Deduplication and precedence\<close>



























section \<open>Properties of the fuzzy-match detector\<close>






lemma pair_rows_row:
  assumes "row \<in> set (pair_rows ratio threshold rank english_meaning ((lang_a, word_a), (lang_b, word_b)))"
  shows "word_a \<noteq> word_b \<and> 4 \<le> length word_a \<and> 4 \<le> length word_b \<and>
         threshold < ratio word_a word_b \<and> ratio word_a word_b < 1 \<and>
         row = \<lparr>n_Rank = rank, n_English_Meaning = english_meaning,
                 n_Language_A = lang_a, n_Word_A = word_a,
                 n_Language_B = lang_b, n_Word_B = word_b,
                 n_Similarity_Score = format_3f (ratio word_a word_b),
                 n_Pattern_Detected = detect_delta word_a word_b\<rparr>"
proof -
  let ?r = "\<lparr>n_Rank = rank, n_English_Meaning = english_meaning,
                 n_Language_A = lang_a, n_Word_A = word_a,
                 n_Language_B = lang_b, n_Word_B = word_b,
                 n_Similarity_Score = format_3f (ratio word_a word_b),
                 n_Pattern_Detected = detect_delta word_a word_b\<rparr>"
  have eq: "pair_rows ratio threshold rank english_meaning ((lang_a, word_a), (lang_b, word_b)) =
        (if word_a = word_b then []
         else if length word_a < 4 \<or> length word_b < 4 then []
         else if ratio word_a word_b \<le> threshold \<or> ratio word_a word_b \<ge> 1 then []
         else [?r])"
    by (simp only: pair_rows_def prod.case Let_def)
  show ?thesis
  proof (cases "word_a = word_b \<or> length word_a < 4 \<or> length word_b < 4 \<or>
                ratio word_a word_b \<le> threshold \<or> ratio word_a word_b \<ge> 1")
    case True
    then have "pair_rows ratio threshold rank english_meaning ((lang_a, word_a), (lang_b, word_b)) = []"
      unfolding eq by auto
    with assms show ?thesis by simp
  next
    case False
    then have "pair_rows ratio threshold rank english_meaning ((lang_a, word_a), (lang_b, word_b)) = [?r]"
      unfolding eq by auto
    with assms have "row = ?r" by simp
    with False show ?thesis by (simp only: not_le not_less de_Morgan_disj simp_thms)
  qed
qed

lemma near_rank_rows_row:
  assumes "row \<in> set (near_rank_rows ratio threshold english_by_rank by_lang_rank languages rank)"
  shows "n_Rank row = rank \<and> n_Word_A row \<noteq> n_Word_B row \<and>
         4 \<le> length (n_Word_A row) \<and> 4 \<le> length (n_Word_B row) \<and>
         threshold < ratio (n_Word_A row) (n_Word_B row) \<and>
         ratio (n_Word_A row) (n_Word_B row) < 1 \<and>
         n_Similarity_Score row = format_3f (ratio (n_Word_A row) (n_Word_B row)) \<and>
         n_Pattern_Detected row = detect_delta (n_Word_A row) (n_Word_B row)"
proof -
  from assms obtain em pr where "row \<in> set (pair_rows ratio threshold rank em pr)"
    unfolding near_rank_rows_def Let_def by (auto split: if_splits)
  moreover obtain lang_a word_a lang_b word_b where "pr = ((lang_a, word_a), (lang_b, word_b))"
    by (metis surj_pair)
  ultimately have "row \<in> set (pair_rows ratio threshold rank em ((lang_a, word_a), (lang_b, word_b)))"
    by simp
  from pair_rows_row[OF this] show ?thesis by simp
qed

lemma find_near_cognates_row:
  assumes "row \<in> set (find_near_cognates ratio english_by_rank by_lang_rank languages
                         max_rank_data threshold)"
  shows "n_Rank row \<in> set (near_ranks english_by_rank max_rank_data) \<and>
         n_Word_A row \<noteq> n_Word_B row \<and>
         4 \<le> length (n_Word_A row) \<and> 4 \<le> length (n_Word_B row) \<and>
         threshold < ratio (n_Word_A row) (n_Word_B row) \<and>
         ratio (n_Word_A row) (n_Word_B row) < 1 \<and>
         n_Similarity_Score row = format_3f (ratio (n_Word_A row) (n_Word_B row)) \<and>
         n_Pattern_Detected row = detect_delta (n_Word_A row) (n_Word_B row)"
proof -
  from assms obtain rank where rank: "rank \<in> set (near_ranks english_by_rank max_rank_data)"
    and "row \<in> set (near_rank_rows ratio threshold english_by_rank by_lang_rank languages rank)"
    unfolding find_near_cognates_def by auto
  from near_rank_rows_row[OF this(2)] rank show ?thesis by simp
qed






lemma load_row_entry:
  "load_row row (by_lang_rank, languages, max_rank) =
     (case row_entry row of
        None \<Rightarrow> (by_lang_rank, languages, max_rank)
      | Some (lang, rank, word) \<Rightarrow>
          (by_lang_rank((lang, rank) \<mapsto> word), insert lang languages, max rank max_rank))"
  unfolding load_row_def row_entry_def Let_def
  by (auto split: option.splits simp: max_def)

lemma lexicon_entries_Cons:
  "lexicon_entries (row # rows) =
     (case row_entry row of None \<Rightarrow> lexicon_entries rows | Some e \<Rightarrow> e # lexicon_entries rows)"
  unfolding lexicon_entries_def by (simp add: List.map_filter_simps split: option.splits)

lemma fold_load_row:
  "fold load_row rows (by_lang_rank, languages, max_rank) = (m, L, r) \<Longrightarrow>
     L = languages \<union> fst ` set (lexicon_entries rows) \<and>
     r = Max (insert max_rank (set (map (\<lambda>e. fst (snd e)) (lexicon_entries rows))))"
proof (induction rows arbitrary: by_lang_rank languages max_rank)
  case Nil
  then show ?case by (simp add: lexicon_entries_def List.map_filter_simps)
next
  case (Cons row rows)
  show ?case
  proof (cases "row_entry row")
    case None
    then have "load_row row (by_lang_rank, languages, max_rank) = (by_lang_rank, languages, max_rank)"
      by (simp add: load_row_entry)
    with Cons.prems have "fold load_row rows (by_lang_rank, languages, max_rank) = (m, L, r)"
      by simp
    from Cons.IH[OF this] None show ?thesis by (simp add: lexicon_entries_Cons)
  next
    case (Some e)
    obtain lang rank word where e: "e = (lang, rank, word)" by (cases e) auto
    let ?S = "set (map (\<lambda>e. fst (snd e)) (lexicon_entries rows))"
    from Some e have "load_row row (by_lang_rank, languages, max_rank) =
        (by_lang_rank((lang, rank) \<mapsto> word), insert lang languages, max rank max_rank)"
      by (simp add: load_row_entry)
    with Cons.prems have "fold load_row rows
        (by_lang_rank((lang, rank) \<mapsto> word), insert lang languages, max rank max_rank) = (m, L, r)"
      by simp
    from Cons.IH[OF this]
    have L: "L = insert lang languages \<union> fst ` set (lexicon_entries rows)"
      and r: "r = Max (insert (max rank max_rank) ?S)" by simp_all
    have "Max (insert (max rank max_rank) ?S) = Max (insert max_rank (insert rank ?S))"
    proof (cases "?S = {}")
      case True
      then show ?thesis by (simp add: max.commute)
    next
      case False
      then show ?thesis by (simp add: max.assoc max.commute max.left_commute)
    qed
    with L r Some e show ?thesis by (simp add: lexicon_entries_Cons)
  qed
qed

lemma load_raw_data_result:
  assumes "load_raw_data rows = (by_lang_rank, languages, max_rank_data)"
  shows "languages = fst ` set (lexicon_entries rows)"
    and "max_rank_data = Max (insert 0 (set (map (\<lambda>e. fst (snd e)) (lexicon_entries rows))))"
  using fold_load_row[OF assms[unfolded load_raw_data_def]] by simp_all

lemma set_near_ranks:
  "set (near_ranks english_by_rank max_rank_data) =
     {r. 1 \<le> r \<and> r \<le> int (length english_by_rank) \<and> r \<le> max_rank_data}"
  unfolding near_ranks_def by auto

text \<open>
  Claim C5, as the code has it. \<open>max_rank\<close> of \<open>load_raw_data\<close> is the largest rank
  of any entry of the lexicon, over all languages together (and 0 when no entry has a
  positive rank). The detector runs over the ranks from 1 to the smaller of that number and
  the length of the reference list, and every row it emits has its rank in that range.
\<close>

theorem near_ranks_up_to_largest_rank:
  assumes "load_raw_data rows = (by_lang_rank, languages, max_rank_data)"
  shows "max_rank_data = Max (insert 0 (set (map (\<lambda>e. fst (snd e)) (lexicon_entries rows)))) \<and>
         near_ranks english_by_rank max_rank_data =
           [1 .. min (int (length english_by_rank))
                     (Max (insert 0 (set (map (\<lambda>e. fst (snd e)) (lexicon_entries rows)))))] \<and>
         find_near_cognates ratio english_by_rank by_lang_rank languages max_rank_data threshold =
           concat (map (near_rank_rows ratio threshold english_by_rank by_lang_rank languages)
                       (near_ranks english_by_rank max_rank_data)) \<and>
         (\<forall>row\<in>set (find_near_cognates ratio english_by_rank by_lang_rank languages
                         max_rank_data threshold).
            1 \<le> n_Rank row \<and> n_Rank row \<le> int (length english_by_rank) \<and>
            n_Rank row \<le> max_rank_data)"
proof -
  have mx: "max_rank_data = Max (insert 0 (set (map (\<lambda>e. fst (snd e)) (lexicon_entries rows))))"
    by (rule load_raw_data_result(2)[OF assms])
  have rng: "near_ranks english_by_rank max_rank_data =
           [1 .. min (int (length english_by_rank))
                     (Max (insert 0 (set (map (\<lambda>e. fst (snd e)) (lexicon_entries rows)))))]"
    unfolding near_ranks_def mx[symmetric] ..
  have run: "find_near_cognates ratio english_by_rank by_lang_rank languages max_rank_data threshold =
           concat (map (near_rank_rows ratio threshold english_by_rank by_lang_rank languages)
                       (near_ranks english_by_rank max_rank_data))"
    by (simp only: find_near_cognates_def)
  have rows: "\<forall>row\<in>set (find_near_cognates ratio english_by_rank by_lang_rank languages
                         max_rank_data threshold).
            1 \<le> n_Rank row \<and> n_Rank row \<le> int (length english_by_rank) \<and>
            n_Rank row \<le> max_rank_data"
  proof
    fix row
    assume "row \<in> set (find_near_cognates ratio english_by_rank by_lang_rank languages
                         max_rank_data threshold)"
    from find_near_cognates_row[OF this]
    have "n_Rank row \<in> set (near_ranks english_by_rank max_rank_data)" by blast
    then show "1 \<le> n_Rank row \<and> n_Rank row \<le> int (length english_by_rank) \<and>
            n_Rank row \<le> max_rank_data"
      unfolding set_near_ranks by simp
  qed
  from mx rng run rows show ?thesis by blast
qed

theorem near_ranks_up_to_largest_rank_witness:
  "snd (snd (load_raw_data
     [\<lparr>csv_language = Some ''es'', csv_rank = Some ''1'', csv_word = Some ''casa''\<rparr>,
      \<lparr>csv_language = Some ''es'', csv_rank = Some ''2'', csv_word = Some ''nacion''\<rparr>,
      \<lparr>csv_language = Some ''es'', csv_rank = Some ''3'', csv_word = Some ''mundo''\<rparr>,
      \<lparr>csv_language = Some ''fr'', csv_rank = Some ''1'', csv_word = Some ''maison''\<rparr>])) = 3 \<and>
   near_ranks [''house'', ''nation'', ''world'']
     (snd (snd (load_raw_data
     [\<lparr>csv_language = Some ''es'', csv_rank = Some ''1'', csv_word = Some ''casa''\<rparr>,
      \<lparr>csv_language = Some ''es'', csv_rank = Some ''2'', csv_word = Some ''nacion''\<rparr>,
      \<lparr>csv_language = Some ''es'', csv_rank = Some ''3'', csv_word = Some ''mundo''\<rparr>,
      \<lparr>csv_language = Some ''fr'', csv_rank = Some ''1'', csv_word = Some ''maison''\<rparr>]))) = [1, 2, 3] \<and>
   Max (insert 0 (set (map (\<lambda>e. fst (snd e)) (lexicon_entries
     [\<lparr>csv_language = Some ''es'', csv_rank = Some ''1'', csv_word = Some ''casa''\<rparr>,
      \<lparr>csv_language = Some ''es'', csv_rank = Some ''2'', csv_word = Some ''nacion''\<rparr>,
      \<lparr>csv_language = Some ''es'', csv_rank = Some ''3'', csv_word = Some ''mundo''\<rparr>,
      \<lparr>csv_language = Some ''fr'', csv_rank = Some ''1'', csv_word = Some ''maison''\<rparr>])))) = 3"
proof -
  let ?rows = "[\<lparr>csv_language = Some ''es'', csv_rank = Some ''1'', csv_word = Some ''casa''\<rparr>,
      \<lparr>csv_language = Some ''es'', csv_rank = Some ''2'', csv_word = Some ''nacion''\<rparr>,
      \<lparr>csv_language = Some ''es'', csv_rank = Some ''3'', csv_word = Some ''mundo''\<rparr>,
      \<lparr>csv_language = Some ''fr'', csv_rank = Some ''1'', csv_word = Some ''maison''\<rparr>]"
  have ld: "load_raw_data ?rows =
     (fst (load_raw_data ?rows), fst (snd (load_raw_data ?rows)), snd (snd (load_raw_data ?rows)))"
    by simp
  have mx: "snd (snd (load_raw_data ?rows)) = 3" by code_simp
  from near_ranks_up_to_largest_rank[OF ld, where english_by_rank = "[''house'', ''nation'', ''world'']"]
  have "snd (snd (load_raw_data ?rows)) =
          Max (insert 0 (set (map (\<lambda>e. fst (snd e)) (lexicon_entries ?rows))))"
    and "near_ranks [''house'', ''nation'', ''world''] (snd (snd (load_raw_data ?rows))) =
          [1 .. min (int (length [''house'', ''nation'', ''world'']))
                    (Max (insert 0 (set (map (\<lambda>e. fst (snd e)) (lexicon_entries ?rows)))))]"
    by blast+
  then have "Max (insert 0 (set (map (\<lambda>e. fst (snd e)) (lexicon_entries ?rows)))) = 3"
    and "near_ranks [''house'', ''nation'', ''world''] (snd (snd (load_raw_data ?rows))) = [1 .. min (int (length [''house'', ''nation'', ''world''])) 3]"
    unfolding mx by simp_all
  moreover have "[1 .. min (int (length [''house'', ''nation'', ''world''])) 3] = [1, 2, 3]" by code_simp
  ultimately show ?thesis using mx by simp
qed

text \<open>
  The bound is not the minimum over the languages of their largest ranks: with Spanish
  words at the ranks 1 to 3 and a French word at rank 1 only, that minimum is 1, while
  \<open>max_rank\<close> is 3 and the detector emits a row at rank 2.
\<close>

theorem near_ranks_min_of_language_max_counterexample:
  "min_of_language_max_ranks (lexicon_entries
     [\<lparr>csv_language = Some ''es'', csv_rank = Some ''1'', csv_word = Some ''casa''\<rparr>,
      \<lparr>csv_language = Some ''es'', csv_rank = Some ''2'', csv_word = Some ''nacion''\<rparr>,
      \<lparr>csv_language = Some ''es'', csv_rank = Some ''3'', csv_word = Some ''mundo''\<rparr>,
      \<lparr>csv_language = Some ''fr'', csv_rank = Some ''1'', csv_word = Some ''maison''\<rparr>]) = 1 \<and>
   snd (snd (load_raw_data
     [\<lparr>csv_language = Some ''es'', csv_rank = Some ''1'', csv_word = Some ''casa''\<rparr>,
      \<lparr>csv_language = Some ''es'', csv_rank = Some ''2'', csv_word = Some ''nacion''\<rparr>,
      \<lparr>csv_language = Some ''es'', csv_rank = Some ''3'', csv_word = Some ''mundo''\<rparr>,
      \<lparr>csv_language = Some ''fr'', csv_rank = Some ''1'', csv_word = Some ''maison''\<rparr>])) = 3 \<and>
   map n_Rank
     (find_near_cognates seq_ratio [''house'', ''nation'', ''world'']
        (fst (load_raw_data
     [\<lparr>csv_language = Some ''es'', csv_rank = Some ''1'', csv_word = Some ''casa''\<rparr>,
      \<lparr>csv_language = Some ''es'', csv_rank = Some ''2'', csv_word = Some ''nacion''\<rparr>,
      \<lparr>csv_language = Some ''es'', csv_rank = Some ''3'', csv_word = Some ''mundo''\<rparr>,
      \<lparr>csv_language = Some ''fr'', csv_rank = Some ''1'', csv_word = Some ''maison''\<rparr>]))
        (fst (snd (load_raw_data
     [\<lparr>csv_language = Some ''es'', csv_rank = Some ''1'', csv_word = Some ''casa''\<rparr>,
      \<lparr>csv_language = Some ''es'', csv_rank = Some ''2'', csv_word = Some ''nacion''\<rparr>,
      \<lparr>csv_language = Some ''es'', csv_rank = Some ''3'', csv_word = Some ''mundo''\<rparr>,
      \<lparr>csv_language = Some ''fr'', csv_rank = Some ''1'', csv_word = Some ''maison''\<rparr>])))
        (snd (snd (load_raw_data
     [\<lparr>csv_language = Some ''es'', csv_rank = Some ''1'', csv_word = Some ''casa''\<rparr>,
      \<lparr>csv_language = Some ''es'', csv_rank = Some ''2'', csv_word = Some ''nacion''\<rparr>,
      \<lparr>csv_language = Some ''es'', csv_rank = Some ''3'', csv_word = Some ''mundo''\<rparr>,
      \<lparr>csv_language = Some ''fr'', csv_rank = Some ''1'', csv_word = Some ''maison''\<rparr>])))
        (7 / 10)) = [2]"
  by code_simp


end
